theory Spec2Isabelle
  imports Main "HOL-Library.Word"
begin

unbundle bit_operations_syntax

section \<open>ThreatMonitor: threat history and derived security level\<close>

text \<open>
  Source: \<^verbatim>\<open>src/monitor/threatMonitor.js\<close>, class \<^verbatim>\<open>ThreatMonitor\<close>.
  A threat is the object literal the detectors pass to \<^verbatim>\<open>reportThreat\<close>; its severity
  is a JavaScript string compared with \<^verbatim>\<open>===\<close>, so it stays a string here.
\<close>

record threat =
  threat_type :: string
  severity :: string
  description :: string
  timestamp :: int
  details :: "(string \<times> string) list"

datatype SecurityLevel = GREEN | YELLOW | RED

text \<open>What the monitor emits through its EventEmitter, in emission order.\<close>

datatype emitted = ThreatDetected threat | SecurityLevelChanged SecurityLevel

record monitor =
  recentThreats :: "threat list"
  emits :: "emitted list"

definition new_monitor :: monitor where
  "new_monitor = \<lparr>recentThreats = [], emits = []\<rparr>"

definition emit :: "emitted \<Rightarrow> monitor \<Rightarrow> monitor" where
  "emit e m = m\<lparr>emits := emits m @ [e]\<rparr>"

text \<open>
  \<^verbatim>\<open>updateSecurityLevel(threat)\<close>: the local \<^verbatim>\<open>newLevel\<close> starts as GREEN, the two
  \<^verbatim>\<open>filter(...).length\<close> counts decide, and the level is emitted. The argument
  \<^verbatim>\<open>threat\<close> is not read.
\<close>

definition updateSecurityLevel :: "threat \<Rightarrow> monitor \<Rightarrow> monitor" where
  "updateSecurityLevel t m =
     (let highThreats = length (filter (\<lambda>t. severity t = ''HIGH'') (recentThreats m));
          mediumThreats = length (filter (\<lambda>t. severity t = ''MEDIUM'') (recentThreats m));
          newLevel = (if highThreats > 0 then RED
                      else if mediumThreats > 2 \<or> length (recentThreats m) > 5 then YELLOW
                      else GREEN)
      in emit (SecurityLevelChanged newLevel) m)"

text \<open>
  \<^verbatim>\<open>reportThreat(threat)\<close>: \<^verbatim>\<open>unshift\<close> puts the threat at the front, the history
  is cut to its first 100 entries, the threat is emitted, the level is recomputed.
\<close>

definition reportThreat :: "threat \<Rightarrow> monitor \<Rightarrow> monitor" where
  "reportThreat t m =
     (let m1 = m\<lparr>recentThreats := t # recentThreats m\<rparr>;
          m2 = (if length (recentThreats m1) > 100
                then m1\<lparr>recentThreats := take 100 (recentThreats m1)\<rparr> else m1);
          m3 = emit (ThreatDetected t) m2
      in updateSecurityLevel t m3)"

fun reportAll :: "threat list \<Rightarrow> monitor \<Rightarrow> monitor" where
  "reportAll [] m = m"
| "reportAll (t # ts) m = reportAll ts (reportThreat t m)"

text \<open>The levels among the emitted events, in emission order.\<close>

fun levels_of :: "emitted list \<Rightarrow> SecurityLevel list" where
  "levels_of [] = []"
| "levels_of (SecurityLevelChanged l # es) = l # levels_of es"
| "levels_of (ThreatDetected t # es) = levels_of es"

text \<open>
  The derivation as the specification words it: HIGH present, else more than two MEDIUM
  or more than five events, else GREEN.
\<close>

definition spec_level :: "threat list \<Rightarrow> SecurityLevel" where
  "spec_level h =
     (if ''HIGH'' \<in> set (map severity h) then RED
      else if 2 < count_list (map severity h) ''MEDIUM'' \<or> 5 < length h then YELLOW
      else GREEN)"

definition medium_threat :: threat where
  "medium_threat = \<lparr>threat_type = ''DEBUGGER_DETECTED'', severity = ''MEDIUM'',
                     description = ''Timing anomaly detected'', timestamp = 0,
                     details = []\<rparr>"

definition high_threat :: threat where
  "high_threat = \<lparr>threat_type = ''SUSPICIOUS_PROCESS'', severity = ''HIGH'',
                   description = ''Suspicious process detected'', timestamp = 0,
                   details = []\<rparr>"

section \<open>Calls into the security logger\<close>

text \<open>
  VaultManager reports through the security logger and closes watchers. Each such call
  is recorded, in program order, in an effect trace carried by the state. The logger
  methods catch every error themselves (\<^verbatim>\<open>writeLogEntry\<close> wraps its body in
  try/catch), so a logger call never throws into its caller.
\<close>

datatype effect =
    LogThreat threat
  | LogAction string
  | LogFileAccess string string bool
  | WatcherClosed string

section \<open>VaultManager\<close>

text \<open>
  Source: \<^verbatim>\<open>unnamed/part_001\<close> (the module that defines class \<^verbatim>\<open>VaultManager\<close>).
\<close>

subsection \<open>Buffers and errors\<close>

type_synonym byte = "8 word"
type_synonym buffer = "byte list"

datatype js_error =
    ENOENT string
  | AuthFailed
  | TypeError string
  | ReferenceError string

text \<open>
  \<^verbatim>\<open>buf.slice(start, end)\<close>: a negative offset counts from the end, both offsets are
  clamped to the buffer, and an empty range gives the empty buffer. With one argument the
  end is the length.
\<close>

definition buf_slice :: "int \<Rightarrow> int \<Rightarrow> 'a list \<Rightarrow> 'a list" where
  "buf_slice start end xs =
     (let n = int (length xs);
          s = (if start < 0 then max 0 (n + start) else min start n);
          e = (if end < 0 then max 0 (n + end) else min end n)
      in if s < e then take (nat (e - s)) (drop (nat s) xs) else [])"

definition buf_slice_from :: "int \<Rightarrow> 'a list \<Rightarrow> 'a list" where
  "buf_slice_from start xs = buf_slice start (int (length xs)) xs"

subsection \<open>The cipher of the runtime's crypto module\<close>

text \<open>
  \<^verbatim>\<open>crypto.createCipher('aes-256-gcm', key)\<close> and \<^verbatim>\<open>createDecipher\<close> belong to the
  runtime, not to this repository, and are a parameter of the model. They take the key
  as a password and derive the cipher's key and nonce from it alone, so the result is a
  function of the key, the associated data and the input:
  \<^item> \<open>gcm_seal key aad plaintext\<close> is the pair of \<^verbatim>\<open>update(data) + final()\<close> and
    \<^verbatim>\<open>getAuthTag()\<close>;
  \<^item> \<open>gcm_open key aad ciphertext tag\<close> is \<^verbatim>\<open>update(encrypted) + final()\<close>, or
    \<open>None\<close> when \<^verbatim>\<open>setAuthTag\<close> or \<^verbatim>\<open>final\<close> throws.
\<close>

record crypto_lib =
  gcm_seal :: "buffer \<Rightarrow> buffer \<Rightarrow> buffer \<Rightarrow> buffer \<times> buffer"
  gcm_open :: "buffer \<Rightarrow> buffer \<Rightarrow> buffer \<Rightarrow> buffer \<Rightarrow> buffer option"

definition ivLength :: nat where "ivLength = 16"
definition tagLength :: nat where "tagLength = 16"

definition aad :: buffer where
  "aad = map of_char ''defender-detective''"

text \<open>
  \<^verbatim>\<open>encrypt(data)\<close>. The argument \<open>iv\<close> is the result of
  \<^verbatim>\<open>crypto.randomBytes(this.ivLength)\<close>. It is placed in front of the output and is not
  given to the cipher. A \<^verbatim>\<open>null\<close> key makes \<^verbatim>\<open>createCipher\<close> throw.
\<close>

definition encrypt :: "crypto_lib \<Rightarrow> buffer option \<Rightarrow> buffer \<Rightarrow> buffer \<Rightarrow> js_error + buffer" where
  "encrypt lib encryptionKey iv data =
     (case encryptionKey of
        None \<Rightarrow> Inl (TypeError ''password'')
      | Some key \<Rightarrow>
          (let (encrypted, tag) = gcm_seal lib key aad data
           in Inr (iv @ encrypted @ tag)))"

text \<open>
  \<^verbatim>\<open>decrypt(encryptedData)\<close>. The local \<^verbatim>\<open>iv\<close> is sliced off and never used.
\<close>

definition decrypt :: "crypto_lib \<Rightarrow> buffer option \<Rightarrow> buffer \<Rightarrow> js_error + buffer" where
  "decrypt lib encryptionKey encryptedData =
     (let iv = buf_slice 0 (int ivLength) encryptedData;
          tag = buf_slice_from (- int tagLength) encryptedData;
          encrypted = buf_slice (int ivLength) (- int tagLength) encryptedData
      in case encryptionKey of
           None \<Rightarrow> Inl (TypeError ''password'')
         | Some key \<Rightarrow>
             (case gcm_open lib key aad encrypted tag of
                None \<Rightarrow> Inl AuthFailed
              | Some decrypted \<Rightarrow> Inr decrypted))"

subsection \<open>Module scope\<close>

text \<open>
  The identifiers the module binds at top level (its \<^verbatim>\<open>require\<close> lines 1 to 9 and the
  class), and the globals of the runtime that the module body uses. Reading any other
  free identifier throws a ReferenceError.
\<close>

definition vault_module_bindings :: "string list" where
  "vault_module_bindings =
     [''fs'', ''fsSync'', ''path'', ''crypto'', ''chokidar'', ''exec'', ''promisify'',
      ''execAsync'', ''VaultManager'']"

definition runtime_globals :: "string list" where
  "runtime_globals =
     [''require'', ''module'', ''process'', ''console'', ''Buffer'', ''Date'', ''JSON'',
      ''Array'', ''Set'', ''Map'', ''Math'', ''String'', ''setTimeout'']"

definition resolve_identifier :: "string \<Rightarrow> js_error + string" where
  "resolve_identifier name =
     (if name \<in> set vault_module_bindings \<or> name \<in> set runtime_globals then Inr name
      else Inl (ReferenceError name))"

subsection \<open>State\<close>

text \<open>
  A JavaScript \<^verbatim>\<open>Set\<close> keeps insertion order and holds no element twice; a \<^verbatim>\<open>Map\<close>
  keeps the insertion order of its keys. Both are lists here, so that the number of
  entries for a path can be counted.
\<close>

definition set_add :: "'a \<Rightarrow> 'a list \<Rightarrow> 'a list" where
  "set_add x xs = (if x \<in> set xs then xs else xs @ [x])"

definition set_delete :: "'a \<Rightarrow> 'a list \<Rightarrow> 'a list" where
  "set_delete x xs = removeAll x xs"

fun map_set :: "'k \<Rightarrow> 'v \<Rightarrow> ('k \<times> 'v) list \<Rightarrow> ('k \<times> 'v) list" where
  "map_set k v [] = [(k, v)]"
| "map_set k v (p # ps) = (if fst p = k then (k, v) # ps else p # map_set k v ps)"

definition map_delete :: "'k \<Rightarrow> ('k \<times> 'v) list \<Rightarrow> ('k \<times> 'v) list" where
  "map_delete k ps = filter (\<lambda>p. fst p \<noteq> k) ps"

datatype watcher = Watcher string

record vault =
  encryptionKey :: "buffer option"
  protectedFolders :: "string list"
  fileWatchers :: "(string \<times> watcher) list"
  tempDecryptedFiles :: "(string \<times> string) list"
  disk :: "(string \<times> buffer) list"
  savedFolders :: "string list option"
  vtrace :: "effect list"

text \<open>
  What the vault's environment decides: \<^verbatim>\<open>path.resolve\<close>, \<^verbatim>\<open>path.basename\<close> and
  \<^verbatim>\<open>path.join\<close> of the runtime, whether \<^verbatim>\<open>chokidar.watch\<close> throws for a folder, and
  whether writing \<^verbatim>\<open>protected_folders.json\<close> fails.
\<close>

record vault_env =
  path_resolve :: "string \<Rightarrow> string"
  path_basename :: "string \<Rightarrow> string"
  path_join :: "string \<Rightarrow> string \<Rightarrow> string"
  watch_throws :: "string \<Rightarrow> bool"
  save_fails :: bool

definition vlog :: "effect \<Rightarrow> vault \<Rightarrow> vault" where
  "vlog e v = v\<lparr>vtrace := vtrace v @ [e]\<rparr>"

subsection \<open>Protected folders and their watchers\<close>

definition saveProtectedFolders :: "vault_env \<Rightarrow> vault \<Rightarrow> vault" where
  "saveProtectedFolders env v =
     (if save_fails env then v else v\<lparr>savedFolders := Some (protectedFolders v)\<rparr>)"

definition watchFolder :: "vault_env \<Rightarrow> string \<Rightarrow> vault \<Rightarrow> vault" where
  "watchFolder env folderPath v =
     (if map_of (fileWatchers v) folderPath \<noteq> None then v
      else if watch_throws env folderPath then v
      else v\<lparr>fileWatchers := map_set folderPath (Watcher folderPath) (fileWatchers v)\<rparr>)"

text \<open>
  \<^verbatim>\<open>addProtectedFolder\<close> and \<^verbatim>\<open>removeProtectedFolder\<close> rethrow what their body throws,
  but \<^verbatim>\<open>watchFolder\<close> and \<^verbatim>\<open>saveProtectedFolders\<close> catch their own errors and
  \<^verbatim>\<open>path.resolve\<close> accepts every string, so both always return.
\<close>

definition addProtectedFolder :: "vault_env \<Rightarrow> string \<Rightarrow> vault \<Rightarrow> vault" where
  "addProtectedFolder env folderPath v =
     (let absolutePath = path_resolve env folderPath
      in if absolutePath \<notin> set (protectedFolders v)
         then saveProtectedFolders env
                (watchFolder env absolutePath
                   (v\<lparr>protectedFolders := set_add absolutePath (protectedFolders v)\<rparr>))
         else v)"

definition removeProtectedFolder :: "vault_env \<Rightarrow> string \<Rightarrow> vault \<Rightarrow> vault" where
  "removeProtectedFolder env folderPath v =
     (let absolutePath = path_resolve env folderPath
      in if absolutePath \<in> set (protectedFolders v)
         then (let v1 = v\<lparr>protectedFolders := set_delete absolutePath (protectedFolders v)\<rparr>;
                   v2 = (case map_of (fileWatchers v1) absolutePath of
                           Some (Watcher w) \<Rightarrow>
                             (vlog (WatcherClosed w) v1)
                               \<lparr>fileWatchers := map_delete absolutePath (fileWatchers v1)\<rparr>
                         | None \<Rightarrow> v1)
               in saveProtectedFolders env v2)
         else v)"

subsection \<open>File events\<close>

text \<open>
  \<^verbatim>\<open>isAuthorizedAccess(filePath)\<close> returns \<^verbatim>\<open>process.pid === process.pid\<close>; \<open>pid\<close> is
  the agent's own process id.
\<close>

definition isAuthorizedAccess :: "nat \<Rightarrow> string \<Rightarrow> bool" where
  "isAuthorizedAccess pid filePath = (pid = pid)"

definition blockFileAccess :: "string \<Rightarrow> vault \<Rightarrow> vault" where
  "blockFileAccess filePath v = vlog (LogAction ''FILE_ACCESS_BLOCKED'') v"

definition handleUnauthorizedAccess :: "int \<Rightarrow> string \<Rightarrow> string \<Rightarrow> vault \<Rightarrow> vault" where
  "handleUnauthorizedAccess now event filePath v =
     blockFileAccess filePath
       (vlog (LogThreat \<lparr>threat_type = ''FILE_ACCESS_ATTEMPT'', severity = ''HIGH'',
                         description = ''Unauthorized file access: '' @ event @ '' on '' @ filePath,
                         timestamp = now,
                         details = [(''event'', event), (''filePath'', filePath)]\<rparr>) v)"

definition handleFileEvent :: "nat \<Rightarrow> int \<Rightarrow> string \<Rightarrow> string \<Rightarrow> vault \<Rightarrow> vault" where
  "handleFileEvent pid now event filePath v =
     (let isAuthorized = isAuthorizedAccess pid filePath;
          v1 = (if \<not> isAuthorized then handleUnauthorizedAccess now event filePath v else v)
      in vlog (LogFileAccess event filePath isAuthorized) v1)"

text \<open>
  A change in a watched folder, as it happens in the world: what was done, to which
  file, and by which process. The watcher's \<^verbatim>\<open>'all'\<close> callback receives the first two
  only: \<^verbatim>\<open>async (event, filePath) => { await this.handleFileEvent(event, filePath) }\<close>.
\<close>

record fs_event =
  ev_kind :: string
  ev_path :: string
  ev_actor :: nat

definition watcher_callback :: "nat \<Rightarrow> int \<Rightarrow> fs_event \<Rightarrow> vault \<Rightarrow> vault" where
  "watcher_callback pid now e v = handleFileEvent pid now (ev_kind e) (ev_path e) v"

subsection \<open>Decrypting a file\<close>

text \<open>
  The body of the try block of \<^verbatim>\<open>decryptFile(filePath)\<close>: read the blob, decrypt it,
  evaluate \<^verbatim>\<open>os.tmpdir()\<close>, write the plaintext to a temporary path and remember it.
  Each statement that throws ends the block with that error. \<open>tmpdir\<close> is what
  \<^verbatim>\<open>os.tmpdir()\<close> would return and \<open>stamp\<close> is \<^verbatim>\<open>Date.now()\<close> in decimal.
\<close>

definition decryptFile_try ::
  "vault_env \<Rightarrow> crypto_lib \<Rightarrow> string \<Rightarrow> string \<Rightarrow> string \<Rightarrow> vault \<Rightarrow> js_error + (string \<times> vault)" where
  "decryptFile_try env lib tmpdir stamp filePath v =
     (let encryptedPath = filePath @ ''.encrypted''
      in case map_of (disk v) encryptedPath of
           None \<Rightarrow> Inl (ENOENT encryptedPath)
         | Some encryptedData \<Rightarrow>
             (case decrypt lib (encryptionKey v) encryptedData of
                Inl e \<Rightarrow> Inl e
              | Inr decrypted \<Rightarrow>
                  (case resolve_identifier ''os'' of
                     Inl e \<Rightarrow> Inl e
                   | Inr os \<Rightarrow>
                       (let tempPath = path_join env tmpdir
                              (''dd_temp_'' @ stamp @ ''_'' @ path_basename env filePath)
                        in Inr (tempPath,
                                v\<lparr>disk := map_set tempPath decrypted (disk v),
                                  tempDecryptedFiles :=
                                    map_set filePath tempPath (tempDecryptedFiles v)\<rparr>)))))"

text \<open>
  \<^verbatim>\<open>decryptFile(filePath)\<close>: the catch clause logs to the console and returns
  \<^verbatim>\<open>null\<close>, whatever was thrown.
\<close>

definition decryptFile ::
  "vault_env \<Rightarrow> crypto_lib \<Rightarrow> string \<Rightarrow> string \<Rightarrow> string \<Rightarrow> vault \<Rightarrow> string option \<times> vault" where
  "decryptFile env lib tmpdir stamp filePath v =
     (case decryptFile_try env lib tmpdir stamp filePath v of
        Inl error \<Rightarrow> (None, v)
      | Inr (tempPath, v') \<Rightarrow> (Some tempPath, v'))"

section \<open>PanicHandler\<close>

text \<open>
  Source: \<^verbatim>\<open>src/monitor/threatMonitor.js\<close>, class \<^verbatim>\<open>PanicHandler\<close> (second module of
  the file). The state holds the two flags, the pending automatic deactivations (the
  callbacks given to \<^verbatim>\<open>setTimeout\<close>, whose handles the class never stores), whether
  \<^verbatim>\<open>process.exit\<close> has been called, and the effect trace.

  Every method that only walks the file system or prints (wiping, encrypting, creating
  locks, writing the crash log) wraps its body in try/catch and changes none of these
  fields; it is recorded as one \<open>Block\<close> effect named after the method.
\<close>

datatype panic_effect =
    Block string
  | Logged string
  | TimerSet nat
  | Exit nat

record handler =
  isLockedDown :: bool
  panicMode :: bool
  lockdownDuration :: nat
  timers :: "nat list"
  exited :: bool
  ptrace :: "panic_effect list"

definition new_handler :: handler where
  "new_handler = \<lparr>isLockedDown = False, panicMode = False, lockdownDuration = 300000,
                   timers = [], exited = False, ptrace = []\<rparr>"

definition emergencyPassphrases :: "string list" where
  "emergencyPassphrases =
     [''BLACK_ICE_PROTOCOL'', ''DEFENDER_DETECTIVE_EMERGENCY'', ''PANIC_MODE_ACTIVATE'',
      ''SELF_DESTRUCT_SEQUENCE'']"

definition plog :: "panic_effect \<Rightarrow> handler \<Rightarrow> handler" where
  "plog e s = s\<lparr>ptrace := ptrace s @ [e]\<rparr>"

subsection \<open>Wiping\<close>

definition wipeTempFiles :: "handler \<Rightarrow> handler" where
  "wipeTempFiles s = plog (Block ''wipeTempFiles'') s"

definition wipeCache :: "handler \<Rightarrow> handler" where
  "wipeCache s = plog (Block ''wipeCache'') s"

definition wipeNonSecurityLogs :: "handler \<Rightarrow> handler" where
  "wipeNonSecurityLogs s = plog (Block ''wipeNonSecurityLogs'') s"

definition clearMemory :: "handler \<Rightarrow> handler" where
  "clearMemory s = plog (Block ''clearMemory'') s"

definition wipeSensitiveData :: "handler \<Rightarrow> handler" where
  "wipeSensitiveData s = clearMemory (wipeNonSecurityLogs (wipeCache (wipeTempFiles s)))"

subsection \<open>Lockdown\<close>

definition encryptAllSensitiveFiles :: "handler \<Rightarrow> handler" where
  "encryptAllSensitiveFiles s = plog (Block ''encryptAllSensitiveFiles'') s"

definition disableNetworkAccess :: "handler \<Rightarrow> handler" where
  "disableNetworkAccess s = plog (Logged ''NETWORK_ACCESS_DISABLED'') s"

definition enableNetworkAccess :: "handler \<Rightarrow> handler" where
  "enableNetworkAccess s = plog (Logged ''NETWORK_ACCESS_ENABLED'') s"

definition createVanishingLocks :: "handler \<Rightarrow> handler" where
  "createVanishingLocks s = plog (Block ''createVanishingLocks'') s"

definition removeVanishingLocks :: "handler \<Rightarrow> handler" where
  "removeVanishingLocks s = plog (Logged ''VANISHING_LOCKS_REMOVED'') s"

text \<open>
  \<^verbatim>\<open>vaultManager.activateDecoyFiles()\<close> rewrites files (each folder in its own
  try/catch) and then logs through the same logger.
\<close>

definition activateDecoyFiles :: "handler \<Rightarrow> handler" where
  "activateDecoyFiles s = plog (Logged ''DECOY_FILES_ACTIVATED'') (plog (Block ''activateDecoyFiles'') s)"

text \<open>
  \<^verbatim>\<open>activateLockdown()\<close>: returns at once when the flag is set; otherwise sets it, runs
  the five steps and calls \<^verbatim>\<open>setTimeout(() => this.deactivateLockdown(),
  this.lockdownDuration)\<close>. None of the steps throws, so the timer is always set.
\<close>

definition activateLockdown :: "handler \<Rightarrow> handler" where
  "activateLockdown s =
     (if isLockedDown s then s
      else (let s1 = s\<lparr>isLockedDown := True\<rparr>;
                s2 = encryptAllSensitiveFiles s1;
                s3 = disableNetworkAccess s2;
                s4 = createVanishingLocks s3;
                s5 = activateDecoyFiles s4;
                s6 = plog (Logged ''LOCKDOWN_ACTIVATED'') s5
            in (plog (TimerSet (lockdownDuration s6)) s6)
                 \<lparr>timers := timers s6 @ [lockdownDuration s6]\<rparr>))"

text \<open>
  \<^verbatim>\<open>deactivateLockdown()\<close>: returns at once when the flag is clear; otherwise clears
  it and logs. It contains no \<^verbatim>\<open>clearTimeout\<close>.
\<close>

definition deactivateLockdown :: "handler \<Rightarrow> handler" where
  "deactivateLockdown s =
     (if \<not> isLockedDown s then s
      else (let s1 = s\<lparr>isLockedDown := False\<rparr>;
                s2 = removeVanishingLocks s1;
                s3 = enableNetworkAccess s2
            in plog (Logged ''LOCKDOWN_DEACTIVATED'') s3))"

definition performLockdown :: "handler \<Rightarrow> handler" where
  "performLockdown s = activateLockdown s"

definition performUnlockdown :: "handler \<Rightarrow> handler" where
  "performUnlockdown s = deactivateLockdown s"

text \<open>The oldest pending timer fires: its callback calls \<^verbatim>\<open>deactivateLockdown\<close>.\<close>

definition fireTimer :: "handler \<Rightarrow> handler" where
  "fireTimer s =
     (case timers s of
        [] \<Rightarrow> s
      | d # ds \<Rightarrow> deactivateLockdown (s\<lparr>timers := ds\<rparr>))"

subsection \<open>Fake crash and self-obliteration\<close>

definition fakeApplicationCrash :: "handler \<Rightarrow> handler" where
  "fakeApplicationCrash s =
     plog (Logged ''FAKE_CRASH_EXECUTED'')
       (plog (Block ''showFakeErrorDialog'') (plog (Block ''createFakeCrashLog'') s))"

definition wipeAllData :: "handler \<Rightarrow> handler" where
  "wipeAllData s = plog (Block ''wipeAllData'') s"

definition deleteApplicationFiles :: "handler \<Rightarrow> handler" where
  "deleteApplicationFiles s = plog (Logged ''APPLICATION_FILES_DELETION_REQUESTED'') s"

text \<open>\<open>win32\<close> is \<^verbatim>\<open>process.platform === 'win32'\<close>.\<close>

definition removeRegistryEntries :: "bool \<Rightarrow> handler \<Rightarrow> handler" where
  "removeRegistryEntries win32 s =
     (if win32 then plog (Logged ''REGISTRY_ENTRIES_REMOVAL_REQUESTED'') s else s)"

text \<open>
  \<^verbatim>\<open>selfObliterate()\<close> ends with \<^verbatim>\<open>process.exit(0)\<close>; nothing runs after it.
\<close>

definition selfObliterate :: "bool \<Rightarrow> handler \<Rightarrow> handler" where
  "selfObliterate win32 s =
     (let s1 = wipeAllData s;
          s2 = deleteApplicationFiles s1;
          s3 = removeRegistryEntries win32 s2;
          s4 = plog (Logged ''SELF_OBLITERATION_COMPLETE'') s3
      in (plog (Exit 0) s4)\<lparr>exited := True\<rparr>)"

subsection \<open>Panic mode\<close>

definition executeEmergencyProcedures :: "bool \<Rightarrow> string \<Rightarrow> handler \<Rightarrow> handler" where
  "executeEmergencyProcedures win32 trigger s =
     (let s1 = wipeSensitiveData s;
          s2 = performLockdown s1;
          s3 = fakeApplicationCrash s2
      in if trigger = ''SELF_DESTRUCT_SEQUENCE'' then selfObliterate win32 s3 else s3)"

definition activatePanicMode :: "bool \<Rightarrow> string \<Rightarrow> handler \<Rightarrow> handler" where
  "activatePanicMode win32 trigger s =
     (if panicMode s then s
      else executeEmergencyProcedures win32 trigger
             (plog (Logged ''PANIC_MODE_ACTIVATED'') (s\<lparr>panicMode := True\<rparr>)))"

text \<open>\<^verbatim>\<open>input.includes(passphrase)\<close>: the passphrase occurs in the input.\<close>

fun str_includes :: "string \<Rightarrow> string \<Rightarrow> bool" where
  "str_includes [] p = (p = [])"
| "str_includes (c # cs) p = (take (length p) (c # cs) = p \<or> str_includes cs p)"

text \<open>
  \<^verbatim>\<open>checkForPanicWords(input)\<close>: the first passphrase of the set, in insertion order,
  that the input includes triggers panic mode, and the loop breaks.
\<close>

fun first_passphrase :: "string list \<Rightarrow> string \<Rightarrow> string option" where
  "first_passphrase [] input = None"
| "first_passphrase (p # ps) input =
     (if str_includes input p then Some p else first_passphrase ps input)"

definition checkForPanicWords :: "bool \<Rightarrow> string \<Rightarrow> handler \<Rightarrow> handler" where
  "checkForPanicWords win32 input s =
     (case first_passphrase emergencyPassphrases input of
        None \<Rightarrow> s
      | Some passphrase \<Rightarrow> activatePanicMode win32 passphrase s)"

definition shutdown :: "handler \<Rightarrow> handler" where
  "shutdown s =
     plog (Block ''cleanupEmergencyProcedures'')
       (if isLockedDown s then deactivateLockdown s else s)"

text \<open>
  Everything that can make the handler run: input reaching \<^verbatim>\<open>checkForPanicWords\<close>
  (standard input and environment values, already upper-cased by the caller), the public
  methods, and a pending timer firing. After \<^verbatim>\<open>process.exit\<close> nothing runs.
  The constructor also binds five methods, \<^verbatim>\<open>selfObliterate\<close> among them, into a table
  \<^verbatim>\<open>emergencyProcedures\<close>; no code reads that table, so it gives no further entry.
\<close>

datatype command =
    Input string
  | ActivatePanicMode string
  | ActivateLockdown
  | DeactivateLockdown
  | PerformLockdown
  | PerformUnlockdown
  | TimerFires
  | Shutdown

fun step :: "bool \<Rightarrow> command \<Rightarrow> handler \<Rightarrow> handler" where
  "step win32 c s =
     (if exited s then s
      else (case c of
              Input i \<Rightarrow> checkForPanicWords win32 i s
            | ActivatePanicMode t \<Rightarrow> activatePanicMode win32 t s
            | ActivateLockdown \<Rightarrow> activateLockdown s
            | DeactivateLockdown \<Rightarrow> deactivateLockdown s
            | PerformLockdown \<Rightarrow> performLockdown s
            | PerformUnlockdown \<Rightarrow> performUnlockdown s
            | TimerFires \<Rightarrow> fireTimer s
            | Shutdown \<Rightarrow> shutdown s))"

fun run :: "bool \<Rightarrow> command list \<Rightarrow> handler \<Rightarrow> handler" where
  "run win32 [] s = s"
| "run win32 (c # cs) s = run win32 cs (step win32 c s)"

text \<open>The trigger a command hands to \<^verbatim>\<open>activatePanicMode\<close>, if any.\<close>

fun trigger_of :: "command \<Rightarrow> string option" where
  "trigger_of (Input i) = first_passphrase emergencyPassphrases i"
| "trigger_of (ActivatePanicMode t) = Some t"
| "trigger_of c = None"

definition wipe_effects :: "panic_effect list" where
  "wipe_effects =
     [Block ''wipeTempFiles'', Block ''wipeCache'', Block ''wipeNonSecurityLogs'',
      Block ''clearMemory'']"

definition lockdown_effects :: "nat \<Rightarrow> panic_effect list" where
  "lockdown_effects d =
     [Block ''encryptAllSensitiveFiles'', Logged ''NETWORK_ACCESS_DISABLED'',
      Block ''createVanishingLocks'', Block ''activateDecoyFiles'',
      Logged ''DECOY_FILES_ACTIVATED'', Logged ''LOCKDOWN_ACTIVATED'', TimerSet d]"

definition crash_effects :: "panic_effect list" where
  "crash_effects =
     [Block ''createFakeCrashLog'', Block ''showFakeErrorDialog'',
      Logged ''FAKE_CRASH_EXECUTED'']"

definition obliterate_effects :: "bool \<Rightarrow> panic_effect list" where
  "obliterate_effects win32 =
     [Block ''wipeAllData'', Logged ''APPLICATION_FILES_DELETION_REQUESTED'']
     @ (if win32 then [Logged ''REGISTRY_ENTRIES_REMOVAL_REQUESTED''] else [])
     @ [Logged ''SELF_OBLITERATION_COMPLETE'', Exit 0]"

definition count_logged :: "string \<Rightarrow> panic_effect list \<Rightarrow> nat" where
  "count_logged a tr = length (filter (\<lambda>e. e = Logged a) tr)"

section \<open>SecurityLogger\<close>

text \<open>
  Source: \<^verbatim>\<open>src/utils/securityLogger.js\<close>. The log directory holds files, each a name
  with its contents; the source's full paths \<^verbatim>\<open>path.join(this.logDir, name)\<close> are the
  names here. The order of the association list carries no meaning: the order in which
  \<^verbatim>\<open>fs.readdir\<close> lists the names is the file system's and is a parameter. Contents are
  ASCII (hexadecimal digits, a colon, a newline), so a file's size in bytes is its length.
\<close>

record log_entry =
  entry_type :: string
  entry_level :: string
  entry_body :: string

record logger =
  isInitialized :: bool
  currentLogFile :: "string option"
  maxLogSize :: nat
  maxLogFiles :: nat
  logDir :: "(string \<times> string) list"

text \<open>The constructor: a ceiling of 10 MB per file and ten files kept.\<close>

definition new_logger :: logger where
  "new_logger =
     \<lparr>isInitialized = False, currentLogFile = None, maxLogSize = 10 * 1024 * 1024,
      maxLogFiles = 10, logDir = []\<rparr>"

text \<open>
  What the runtime and the disk decide for the logger:
  \<^item> \<open>encryptLogEntry\<close>: the method of that name, which serialises the entry, draws a
    random IV and calls the runtime's cipher; it returns the empty string on failure;
  \<^item> \<open>regex_capture\<close>: group 1 of \<^verbatim>\<open>fileName.match(/security_log_(.+)\.enc/)\<close>;
  \<^item> \<open>date_getTime\<close>: \<^verbatim>\<open>new Date(s).getTime()\<close>, with \<open>None\<close> for NaN;
  \<^item> \<open>date_now\<close>: \<^verbatim>\<open>Date.now()\<close>;
  \<^item> \<open>readdir\<close>: the order in which \<^verbatim>\<open>fs.readdir(this.logDir)\<close> lists the names that
    are in the directory;
  \<^item> whether writing to, appending to, or unlinking a file fails.
\<close>

record log_env =
  encryptLogEntry :: "log_entry \<Rightarrow> string"
  regex_capture :: "string \<Rightarrow> string option"
  date_getTime :: "string \<Rightarrow> int option"
  date_now :: int
  readdir :: "string list \<Rightarrow> string list"
  write_fails :: "string \<Rightarrow> bool"
  unlink_fails :: "string \<Rightarrow> bool"

definition startsWith :: "string \<Rightarrow> string \<Rightarrow> bool" where
  "startsWith s p = (take (length p) s = p)"

definition endsWith :: "string \<Rightarrow> string \<Rightarrow> bool" where
  "endsWith s p = (length p \<le> length s \<and> drop (length s - length p) s = p)"

definition replace_char :: "char \<Rightarrow> char \<Rightarrow> string \<Rightarrow> string" where
  "replace_char a b s = map (\<lambda>c. if c = a then b else c) s"

definition appendFile :: "string \<Rightarrow> string \<Rightarrow> (string \<times> string) list \<Rightarrow> (string \<times> string) list" where
  "appendFile name extra dir =
     (case map_of dir name of
        None \<Rightarrow> map_set name extra dir
      | Some content \<Rightarrow> map_set name (content @ extra) dir)"

text \<open>
  The locals \<^verbatim>\<open>timestamp\<close> and \<^verbatim>\<open>logFileName\<close> of \<^verbatim>\<open>createNewLogFile\<close>, where
  \<open>isoString\<close> is \<^verbatim>\<open>new Date().toISOString()\<close>, and the entry it writes first.
\<close>

definition newLogFileName :: "string \<Rightarrow> string" where
  "newLogFileName isoString =
     (let timestamp = replace_char (CHR ''.'') (CHR ''-'') (replace_char (CHR '':'') (CHR ''-'') isoString)
      in ''security_log_'' @ timestamp @ ''.enc'')"

definition log_file_created :: log_entry where
  "log_file_created =
     \<lparr>entry_type = ''SYSTEM'', entry_level = ''INFO'', entry_body = ''Log file created''\<rparr>"

text \<open>
  \<^verbatim>\<open>createNewLogFile()\<close>. The field \<^verbatim>\<open>currentLogFile\<close> is assigned before the file is
  written; a failed write is rethrown, which the first component reports.
\<close>

definition createNewLogFile :: "log_env \<Rightarrow> string \<Rightarrow> logger \<Rightarrow> bool \<times> logger" where
  "createNewLogFile env isoString lg =
     (let logFileName = newLogFileName isoString;
          lg1 = lg\<lparr>currentLogFile := Some logFileName\<rparr>;
          initialData = encryptLogEntry env log_file_created
      in if write_fails env logFileName then (True, lg1)
         else (False, lg1\<lparr>logDir := map_set logFileName initialData (logDir lg1)\<rparr>))"

text \<open>
  \<^verbatim>\<open>extractTimestampFromFileName(fileName)\<close>. A JavaScript number is an integer
  number of milliseconds or NaN (\<open>None\<close>). After the first \<^verbatim>\<open>replace(/-/g, ':')\<close> no
  hyphen is left for the second.
\<close>

definition extractTimestampFromFileName :: "log_env \<Rightarrow> string \<Rightarrow> int option" where
  "extractTimestampFromFileName env fileName =
     (case regex_capture env fileName of
        Some m1 \<Rightarrow>
          (let timestampStr = replace_char (CHR ''-'') (CHR ''.'') (replace_char (CHR ''-'') (CHR '':'') m1)
           in date_getTime env timestampStr)
      | None \<Rightarrow> Some (date_now env))"

record log_file =
  lf_name :: string
  lf_timestamp :: "int option"

text \<open>\<^verbatim>\<open>(a, b) => b.timestamp - a.timestamp\<close>; a difference with NaN is NaN.\<close>

definition compare_desc :: "log_file \<Rightarrow> log_file \<Rightarrow> int option" where
  "compare_desc a b =
     (case (lf_timestamp b, lf_timestamp a) of
        (Some tb, Some ta) \<Rightarrow> Some (tb - ta)
      | _ \<Rightarrow> None)"

text \<open>
  \<^verbatim>\<open>Array.prototype.sort(compare)\<close> is stable, and treats a NaN result as zero. It is
  modelled as a stable insertion sort: an element moves behind a neighbour only when the
  comparison is positive. Where the comparison is not a consistent order (NaN against
  numbers) the runtime may order differently; the properties proved below use only that
  the result holds the same elements and has the same length.
\<close>

fun insert_sorted :: "('a \<Rightarrow> 'a \<Rightarrow> int option) \<Rightarrow> 'a \<Rightarrow> 'a list \<Rightarrow> 'a list" where
  "insert_sorted cmp x [] = [x]"
| "insert_sorted cmp x (y # ys) =
     (case cmp x y of
        Some d \<Rightarrow> (if d > 0 then y # insert_sorted cmp x ys else x # y # ys)
      | None \<Rightarrow> x # y # ys)"

definition array_sort :: "('a \<Rightarrow> 'a \<Rightarrow> int option) \<Rightarrow> 'a list \<Rightarrow> 'a list" where
  "array_sort cmp xs = foldr (insert_sorted cmp) xs []"

definition is_log_file_name :: "string \<Rightarrow> bool" where
  "is_log_file_name file = (startsWith file ''security_log_'' \<and> endsWith file ''.enc'')"

text \<open>One turn of the deletion loop: a failed \<^verbatim>\<open>unlink\<close> is caught and logged.\<close>

definition unlink_file :: "log_env \<Rightarrow> logger \<Rightarrow> log_file \<Rightarrow> logger" where
  "unlink_file env lg file =
     (if unlink_fails env (lf_name file) then lg
      else lg\<lparr>logDir := map_delete (lf_name file) (logDir lg)\<rparr>)"

definition cleanupOldLogFiles :: "log_env \<Rightarrow> logger \<Rightarrow> logger" where
  "cleanupOldLogFiles env lg =
     (let files = readdir env (map fst (logDir lg));
          logFiles = array_sort compare_desc
            (map (\<lambda>file. \<lparr>lf_name = file, lf_timestamp = extractTimestampFromFileName env file\<rparr>)
               (filter is_log_file_name files))
      in if length logFiles > maxLogFiles lg
         then (let filesToDelete = drop (maxLogFiles lg) logFiles
               in foldl (unlink_file env) lg filesToDelete)
         else lg)"

definition rotateLogFile :: "log_env \<Rightarrow> string \<Rightarrow> logger \<Rightarrow> logger" where
  "rotateLogFile env isoString lg =
     (case createNewLogFile env isoString lg of
        (True, lg1) \<Rightarrow> lg1
      | (False, lg1) \<Rightarrow> cleanupOldLogFiles env lg1)"

text \<open>
  \<^verbatim>\<open>checkLogRotation()\<close>, the callback of the five-minute interval set up by
  \<^verbatim>\<open>setupLogRotation\<close>, and the only caller of \<^verbatim>\<open>rotateLogFile\<close>.
\<close>

definition checkLogRotation :: "log_env \<Rightarrow> string \<Rightarrow> logger \<Rightarrow> logger" where
  "checkLogRotation env isoString lg =
     (case currentLogFile lg of
        None \<Rightarrow> lg
      | Some file \<Rightarrow>
          (case map_of (logDir lg) file of
             None \<Rightarrow> lg
           | Some content \<Rightarrow>
               (if length content > maxLogSize lg then rotateLogFile env isoString lg else lg)))"

text \<open>
  \<^verbatim>\<open>writeLogEntry(logEntry)\<close>: encrypts and appends one line to the current file. It
  reads no size and calls no rotation.
\<close>

definition writeLogEntry :: "log_env \<Rightarrow> log_entry \<Rightarrow> logger \<Rightarrow> logger" where
  "writeLogEntry env logEntry lg =
     (if \<not> isInitialized lg then lg
      else (let encryptedData = encryptLogEntry env logEntry
            in case currentLogFile lg of
                 None \<Rightarrow> lg
               | Some file \<Rightarrow>
                   (if write_fails env file then lg
                    else lg\<lparr>logDir := appendFile file (encryptedData @ [CHR 0x0A]) (logDir lg)\<rparr>)))"

fun writeAll :: "log_env \<Rightarrow> log_entry list \<Rightarrow> logger \<Rightarrow> logger" where
  "writeAll env [] lg = lg"
| "writeAll env (e # es) lg = writeAll env es (writeLogEntry env e lg)"

definition file_size :: "logger \<Rightarrow> string \<Rightarrow> nat" where
  "file_size lg name = (case map_of (logDir lg) name of None \<Rightarrow> 0 | Some content \<Rightarrow> length content)"

definition log_files_on_disk :: "logger \<Rightarrow> string list" where
  "log_files_on_disk lg = filter is_log_file_name (map fst (logDir lg))"

section \<open>Concrete inputs\<close>

text \<open>
  Values on which the definitions above are evaluated. \<open>demo_lib\<close> stands in for the
  runtime's cipher on these inputs only: it masks every byte with a byte derived from the
  key and tags with a checksum over key, associated data and ciphertext, sixteen bytes
  long. It is not AES-GCM; it accepts exactly the tag it produced.
\<close>

definition demo_mask :: "buffer \<Rightarrow> buffer \<Rightarrow> buffer" where
  "demo_mask key bs = map (\<lambda>b. b XOR foldr (+) key 0) bs"

definition demo_tag :: "buffer \<Rightarrow> buffer \<Rightarrow> buffer \<Rightarrow> buffer" where
  "demo_tag key a ct = replicate 16 (foldr (+) (key @ a @ ct) 0)"

definition demo_lib :: crypto_lib where
  "demo_lib =
     \<lparr>gcm_seal = (\<lambda>key a pt. (demo_mask key pt, demo_tag key a (demo_mask key pt))),
      gcm_open = (\<lambda>key a ct tag.
                   if tag = demo_tag key a ct then Some (demo_mask key ct) else None)\<rparr>"

definition demo_key :: buffer where
  "demo_key = [1, 2, 3]"

definition demo_iv :: buffer where
  "demo_iv = replicate 16 7"

definition demo_iv_tampered :: buffer where
  "demo_iv_tampered = 8 # replicate 15 7"

definition demo_plain :: buffer where
  "demo_plain = [104, 105]"

definition demo_sealed :: buffer where
  "demo_sealed = [110, 111] @ replicate 16 10"

definition demo_sealed_tampered :: buffer where
  "demo_sealed_tampered = [110, 111] @ replicate 15 10 @ [11]"

definition demo_env :: vault_env where
  "demo_env =
     \<lparr>path_resolve = (\<lambda>p. if take 1 p = ''/'' then p else ''/cwd/'' @ p),
      path_basename = (\<lambda>p. p),
      path_join = (\<lambda>a b. a @ ''/'' @ b),
      watch_throws = (\<lambda>p. False),
      save_fails = False\<rparr>"

definition demo_vault :: vault where
  "demo_vault =
     \<lparr>encryptionKey = Some demo_key, protectedFolders = [''/home''],
      fileWatchers = [(''/home'', Watcher ''/home'')], tempDecryptedFiles = [],
      disk = [], savedFolders = None, vtrace = []\<rparr>"

definition tampered_vault :: vault where
  "tampered_vault = demo_vault\<lparr>disk := [(''/proj/a.py.encrypted'', demo_iv @ demo_sealed_tampered)]\<rparr>"

definition agent_pid :: nat where
  "agent_pid = 4242"

definition foreign_event :: fs_event where
  "foreign_event = \<lparr>ev_kind = ''change'', ev_path = ''/proj/a.py'', ev_actor = 999\<rparr>"

text \<open>A directory listing in byte order of the names.\<close>

fun name_le :: "string \<Rightarrow> string \<Rightarrow> bool" where
  "name_le [] ys = True"
| "name_le (x # xs) [] = False"
| "name_le (x # xs) (y # ys) = ((of_char x :: nat) < of_char y \<or> (x = y \<and> name_le xs ys))"

fun insert_name :: "string \<Rightarrow> string list \<Rightarrow> string list" where
  "insert_name x [] = [x]"
| "insert_name x (y # ys) = (if name_le x y then x # y # ys else y # insert_name x ys)"

definition sorted_names :: "string list \<Rightarrow> string list" where
  "sorted_names xs = foldr insert_name xs []"

definition demo_log_env :: log_env where
  "demo_log_env =
     \<lparr>encryptLogEntry = entry_body,
      regex_capture = (\<lambda>f. if is_log_file_name f \<and> 17 < length f
                          then Some (take (length f - 17) (drop 13 f)) else None),
      date_getTime = (\<lambda>s. None),
      date_now = 0,
      readdir = sorted_names,
      write_fails = (\<lambda>f. False),
      unlink_fails = (\<lambda>f. False)\<rparr>"

definition demo_entry :: log_entry where
  "demo_entry = \<lparr>entry_type = ''action'', entry_level = ''INFO'', entry_body = ''0a1b2c3d''\<rparr>"

definition demo_logger :: logger where
  "demo_logger =
     \<lparr>isInitialized = True, currentLogFile = Some ''security_log_C.enc'',
      maxLogSize = 10, maxLogFiles = 2,
      logDir = [(''security_log_A.enc'', ''x''), (''security_log_B.enc'', ''y''),
                (''notes.txt'', ''z''), (''security_log_C.enc'', '''')]\<rparr>"

definition demo_line :: string where
  "demo_line = ''0a1b2c3d'' @ [CHR 0x0A]"

definition demo_logger_full :: logger where
  "demo_logger_full =
     demo_logger\<lparr>logDir := [(''security_log_A.enc'', ''x''), (''security_log_B.enc'', ''y''),
                             (''notes.txt'', ''z''),
                             (''security_log_C.enc'', demo_line @ demo_line @ demo_line)]\<rparr>"

definition demo_logger_roomy :: logger where
  "demo_logger_roomy = demo_logger_full\<lparr>maxLogFiles := 10\<rparr>"

definition demo_iso :: string where
  "demo_iso = ''2024-01-15T10:30:00.000Z''"

section \<open>Properties of the threat monitor\<close>

lemma count_list_filter_length:
  "count_list (map f xs) v = length (filter (\<lambda>x. f x = v) xs)"
  by (induction xs) auto

lemma filter_length_pos_iff:
  "0 < length (filter (\<lambda>x. f x = v) xs) \<longleftrightarrow> v \<in> set (map f xs)"
  by (induction xs) auto

text \<open>
  C1. The level emitted by \<^verbatim>\<open>updateSecurityLevel\<close> is a function of the threat history
  alone: RED when some event has severity HIGH; otherwise YELLOW when more than two events
  have severity MEDIUM or the history holds more than five events; otherwise GREEN.
\<close>

theorem updateSecurityLevel_derives_level:
  "updateSecurityLevel t m = m\<lparr>emits := emits m @ [SecurityLevelChanged (spec_level (recentThreats m))]\<rparr>"
  unfolding updateSecurityLevel_def spec_level_def emit_def Let_def
  by (simp add: count_list_filter_length filter_length_pos_iff [symmetric] del: set_map)

text \<open>
  C3, as stated, fails. From an empty history, three MEDIUM reports and one HIGH report
  do not give the levels GREEN, YELLOW, YELLOW, RED: after the second MEDIUM report only
  two MEDIUM events are in the history, which is not more than two.
\<close>

theorem three_medium_one_high_not_spec_sequence:
  "levels_of (emits (reportAll [medium_threat, medium_threat, medium_threat, high_threat] new_monitor))
     \<noteq> [GREEN, YELLOW, YELLOW, RED]"
  by (simp add: reportThreat_def updateSecurityLevel_def emit_def new_monitor_def
      medium_threat_def high_threat_def Let_def)

text \<open>
  C3, amended. From an empty history, reporting three MEDIUM events and then one HIGH
  event emits, after each report, the levels GREEN, GREEN, YELLOW, RED.
\<close>

theorem three_medium_one_high_levels:
  assumes "severity a = ''MEDIUM''" "severity b = ''MEDIUM''" "severity c = ''MEDIUM''"
    and "severity d = ''HIGH''"
  shows "levels_of (emits (reportAll [a, b, c, d] new_monitor)) = [GREEN, GREEN, YELLOW, RED]"
  using assms
  by (simp add: reportThreat_def updateSecurityLevel_def emit_def new_monitor_def Let_def)

theorem three_medium_one_high_levels_witness:
  "severity medium_threat = ''MEDIUM'' \<and> severity high_threat = ''HIGH''
   \<and> levels_of (emits (reportAll [medium_threat, medium_threat, medium_threat, high_threat] new_monitor))
       = [GREEN, GREEN, YELLOW, RED]"
  using three_medium_one_high_levels [of medium_threat medium_threat medium_threat high_threat]
  by (simp add: medium_threat_def high_threat_def)

section \<open>Properties of the vault's cipher wrapper\<close>

lemma slice_tag:
  assumes "length iv = ivLength" "tagLength \<le> length rest"
  shows "buf_slice_from (- int tagLength) (iv @ rest) = drop (length rest - tagLength) rest"
  using assms
  by (simp add: buf_slice_from_def buf_slice_def Let_def ivLength_def tagLength_def nat_diff_distrib')

lemma slice_body:
  assumes "length iv = ivLength" "tagLength \<le> length rest"
  shows "buf_slice (int ivLength) (- int tagLength) (iv @ rest) = take (length rest - tagLength) rest"
  using assms
  by (auto simp add: buf_slice_def Let_def ivLength_def tagLength_def nat_diff_distrib' min_def max_def)

text \<open>
  The round trip holds for every plaintext (the empty one included) on which the
  runtime's cipher returns a sixteen-byte tag and opens what it sealed.
\<close>

lemma encrypt_decrypt_roundtrip:
  assumes ok: "gcm_seal lib k aad data = (c, t)" "length t = tagLength"
      "gcm_open lib k aad c t = Some data"
    and iv: "length iv = ivLength"
  shows "encrypt lib (Some k) iv data = Inr (iv @ c @ t)
       \<and> decrypt lib (Some k) (iv @ c @ t) = Inr data"
proof -
  have len: "tagLength \<le> length (c @ t)" using ok(2) by simp
  have "decrypt lib (Some k) (iv @ (c @ t)) = Inr data"
    unfolding decrypt_def Let_def
    by (simp only: slice_tag [OF iv len] slice_body [OF iv len]) (simp add: ok)
  then show ?thesis by (simp add: encrypt_def ok)
qed

lemma demo_encrypt:
  "encrypt demo_lib (Some demo_key) demo_iv demo_plain = Inr (demo_iv @ demo_sealed)"
  by code_simp

lemma demo_decrypt:
  "decrypt demo_lib (Some demo_key) (demo_iv @ demo_sealed) = Inr demo_plain"
  by code_simp

lemma demo_tampered_rejected:
  "decrypt demo_lib (Some demo_key) (demo_iv @ demo_sealed_tampered) = Inl AuthFailed"
  by code_simp

text \<open>
  C2, where the code departs from it. The claim asks that changing a byte of the IV makes
  decryption fail. In the code the sixteen IV bytes are stored in front of the blob and
  cut off again, and never reach the cipher: whatever sixteen bytes stand there,
  \<^verbatim>\<open>decrypt\<close> gives the same result, for every cipher, key and remainder that holds at
  least a tag.
\<close>

theorem decrypt_ignores_iv:
  assumes "length iv = ivLength" "length iv' = ivLength" "tagLength \<le> length rest"
  shows "decrypt lib key (iv' @ rest) = decrypt lib key (iv @ rest)"
  unfolding decrypt_def Let_def
  by (simp only: slice_tag [OF assms(1,3)] slice_tag [OF assms(2,3)]
      slice_body [OF assms(1,3)] slice_body [OF assms(2,3)])

theorem decrypt_ignores_iv_witness:
  "length demo_iv = ivLength \<and> length demo_iv_tampered = ivLength \<and> tagLength \<le> length demo_sealed
   \<and> demo_iv_tampered \<noteq> demo_iv
   \<and> encrypt demo_lib (Some demo_key) demo_iv demo_plain = Inr (demo_iv @ demo_sealed)
   \<and> decrypt demo_lib (Some demo_key) (demo_iv_tampered @ demo_sealed) = Inr demo_plain"
proof -
  have h1: "length demo_iv = ivLength" by (simp add: demo_iv_def ivLength_def)
  have h2: "length demo_iv_tampered = ivLength" by (simp add: demo_iv_tampered_def ivLength_def)
  have h3: "tagLength \<le> length demo_sealed" by (simp add: demo_sealed_def tagLength_def)
  have h4: "demo_iv_tampered \<noteq> demo_iv" by code_simp
  show ?thesis
    using decrypt_ignores_iv [OF h1 h2 h3, of demo_lib "Some demo_key"] h1 h2 h3 h4
      demo_encrypt demo_decrypt by simp
qed

section \<open>Properties of decryptFile\<close>

text \<open>
  C6. For every vault state and every path, \<^verbatim>\<open>decryptFile\<close> returns null and leaves
  the state as it was: when reading and decrypting succeed, evaluating \<^verbatim>\<open>os\<close> throws a
  ReferenceError, since the module binds no such name, and the catch clause returns null.
  No call yields a temporary path.
\<close>

theorem decryptFile_always_null:
  "decryptFile env lib tmpdir stamp filePath v = (None, v)"
  by (simp add: decryptFile_def decryptFile_try_def resolve_identifier_def
      vault_module_bindings_def runtime_globals_def Let_def split: option.splits sum.splits)

text \<open>
  C5, as stated, fails in its second half. With the encrypted file missing the try block
  ends with ENOENT, with a tampered blob it ends with the authentication failure, and the
  caller receives the same null in both cases.
\<close>

theorem decryptFile_same_null_for_missing_and_tampered:
  "decryptFile_try demo_env demo_lib ''/tmp'' ''0'' ''/proj/a.py'' demo_vault
     = Inl (ENOENT ''/proj/a.py.encrypted'')
   \<and> decryptFile_try demo_env demo_lib ''/tmp'' ''0'' ''/proj/a.py'' tampered_vault = Inl AuthFailed
   \<and> fst (decryptFile demo_env demo_lib ''/tmp'' ''0'' ''/proj/a.py'' tampered_vault)
     = fst (decryptFile demo_env demo_lib ''/tmp'' ''0'' ''/proj/a.py'' demo_vault)"
  by code_simp

text \<open>
  C5, amended. \<^verbatim>\<open>decryptFile\<close> returns null, without throwing, when the encrypted file
  does not exist and when authentication of the blob fails; the return value is the same
  null in both cases.
\<close>

theorem decryptFile_null_on_failure:
  "(map_of (disk v) (filePath @ ''.encrypted'') = None \<longrightarrow>
      decryptFile_try env lib tmpdir stamp filePath v = Inl (ENOENT (filePath @ ''.encrypted''))
      \<and> fst (decryptFile env lib tmpdir stamp filePath v) = None)
   \<and> (map_of (disk v) (filePath @ ''.encrypted'') = Some blob
        \<and> decrypt lib (encryptionKey v) blob = Inl AuthFailed \<longrightarrow>
      decryptFile_try env lib tmpdir stamp filePath v = Inl AuthFailed
      \<and> fst (decryptFile env lib tmpdir stamp filePath v) = None)"
  by (simp add: decryptFile_def decryptFile_try_def Let_def)

theorem decryptFile_null_on_failure_witness:
  "map_of (disk demo_vault) (''/proj/a.py'' @ ''.encrypted'') = None
   \<and> fst (decryptFile demo_env demo_lib ''/tmp'' ''0'' ''/proj/a.py'' demo_vault) = None
   \<and> map_of (disk tampered_vault) (''/proj/a.py'' @ ''.encrypted'') = Some (demo_iv @ demo_sealed_tampered)
   \<and> decrypt demo_lib (encryptionKey tampered_vault) (demo_iv @ demo_sealed_tampered) = Inl AuthFailed
   \<and> fst (decryptFile demo_env demo_lib ''/tmp'' ''0'' ''/proj/a.py'' tampered_vault) = None"
proof -
  have a: "map_of (disk demo_vault) (''/proj/a.py'' @ ''.encrypted'') = None"
    by (simp add: demo_vault_def)
  have b: "map_of (disk tampered_vault) (''/proj/a.py'' @ ''.encrypted'') = Some (demo_iv @ demo_sealed_tampered)"
    by (simp add: tampered_vault_def demo_vault_def)
  have c: "decrypt demo_lib (encryptionKey tampered_vault) (demo_iv @ demo_sealed_tampered) = Inl AuthFailed"
    using demo_tampered_rejected by (simp add: tampered_vault_def demo_vault_def)
  show ?thesis
    using decryptFile_null_on_failure [where v = demo_vault and filePath = "''/proj/a.py''"
          and env = demo_env and lib = demo_lib and tmpdir = "''/tmp''" and stamp = "''0''"]
      decryptFile_null_on_failure [where v = tampered_vault and filePath = "''/proj/a.py''"
          and blob = "demo_iv @ demo_sealed_tampered"
          and env = demo_env and lib = demo_lib and tmpdir = "''/tmp''" and stamp = "''0''"]
      a b c by simp
qed

section \<open>Properties of file-event handling\<close>

text \<open>
  C9, as stated, fails in its second half. A change made by another process (actor 999,
  the agent being 4242) is logged as an authorized file access; no threat is logged and
  no block action is taken.
\<close>

theorem foreign_event_is_authorized:
  "ev_actor foreign_event \<noteq> agent_pid
   \<and> vtrace (watcher_callback agent_pid 0 foreign_event demo_vault)
       = [LogFileAccess ''change'' ''/proj/a.py'' True]"
  by code_simp

text \<open>
  C9, amended. Every file event on a watched folder is checked for authorization and the
  check answers authorized for every event, whoever caused it: the handler does nothing
  but log the event as an authorized file access. The handler for unauthorized access,
  which the watcher therefore never enters, logs a FILE_ACCESS_ATTEMPT threat of HIGH
  severity and then a block action that is a log entry only.
\<close>

theorem handleFileEvent_always_authorized:
  "handleFileEvent pid now event filePath v = vlog (LogFileAccess event filePath True) v
   \<and> watcher_callback pid now e v = vlog (LogFileAccess (ev_kind e) (ev_path e) True) v
   \<and> vtrace (handleUnauthorizedAccess now event filePath v)
       = vtrace v @ [LogThreat \<lparr>threat_type = ''FILE_ACCESS_ATTEMPT'', severity = ''HIGH'',
                       description = ''Unauthorized file access: '' @ event @ '' on '' @ filePath,
                       timestamp = now, details = [(''event'', event), (''filePath'', filePath)]\<rparr>,
                     LogAction ''FILE_ACCESS_BLOCKED'']"
  by (simp add: handleFileEvent_def watcher_callback_def isAuthorizedAccess_def
      handleUnauthorizedAccess_def blockFileAccess_def vlog_def Let_def)

section \<open>Properties of the protected-folder set\<close>

lemma count_distinct: "distinct xs \<Longrightarrow> x \<in> set xs \<Longrightarrow> count_list xs x = 1"
  by (induction xs) (auto simp: count_list_0_iff)

lemma map_set_keys: "map_of ps k = None \<Longrightarrow> map fst (map_set k v ps) = map fst ps @ [k]"
  by (induction ps) (auto split: if_splits)

lemma map_of_None_iff: "map_of ps k = None \<longleftrightarrow> k \<notin> set (map fst ps)"
  by (simp add: map_of_eq_None_iff)

text \<open>
  C8. For every path P, adding P twice leaves the vault as one add leaves it, with
  exactly one entry for the resolved path in the protected-folder set and exactly one
  watcher for it; removing a path that is not in the set changes nothing. The set and
  the map hold no key twice (they are a JavaScript Set and Map), every folder already
  protected has its watcher, and \<^verbatim>\<open>chokidar.watch\<close> does not throw for P.
\<close>

theorem addProtectedFolder_twice_one_entry:
  assumes d1: "distinct (protectedFolders v)" and d2: "distinct (map fst (fileWatchers v))"
    and inv: "set (protectedFolders v) \<subseteq> set (map fst (fileWatchers v))"
    and ok: "\<not> watch_throws env (path_resolve env P)"
  shows "addProtectedFolder env P (addProtectedFolder env P v) = addProtectedFolder env P v
       \<and> count_list (protectedFolders (addProtectedFolder env P (addProtectedFolder env P v))) (path_resolve env P) = 1
       \<and> count_list (map fst (fileWatchers (addProtectedFolder env P (addProtectedFolder env P v)))) (path_resolve env P) = 1
       \<and> (path_resolve env Q \<notin> set (protectedFolders v) \<longrightarrow> removeProtectedFolder env Q v = v)"
proof -
  let ?p = "path_resolve env P"
  let ?v1 = "addProtectedFolder env P v"
  have in1: "?p \<in> set (protectedFolders ?v1)"
    by (simp add: addProtectedFolder_def Let_def saveProtectedFolders_def watchFolder_def set_add_def)
  have idem: "addProtectedFolder env P ?v1 = ?v1"
    using in1 unfolding addProtectedFolder_def [of env P ?v1] Let_def by simp
  have d1': "distinct (protectedFolders ?v1)"
    using d1 by (simp add: addProtectedFolder_def Let_def saveProtectedFolders_def watchFolder_def set_add_def)
  have c1: "count_list (protectedFolders ?v1) ?p = 1"
    using count_distinct [OF d1' in1] .
  have c2: "count_list (map fst (fileWatchers ?v1)) ?p = 1"
  proof (cases "?p \<in> set (protectedFolders v)")
    case True
    then have "?v1 = v" by (simp add: addProtectedFolder_def Let_def)
    moreover have "?p \<in> set (map fst (fileWatchers v))" using True inv by blast
    ultimately show ?thesis using count_distinct [OF d2] by simp
  next
    case False
    show ?thesis
    proof (cases "map_of (fileWatchers v) ?p")
      case None
      then have notin: "?p \<notin> set (map fst (fileWatchers v))" by (simp add: map_of_None_iff)
      have "map fst (fileWatchers ?v1) = map fst (fileWatchers v) @ [?p]"
        using False None ok
        by (simp add: addProtectedFolder_def Let_def saveProtectedFolders_def watchFolder_def map_set_keys)
      then show ?thesis using notin d2 by (simp add: count_distinct count_list_0_iff)
    next
      case (Some w)
      then have isin: "?p \<in> set (map fst (fileWatchers v))"
        using map_of_None_iff [of "fileWatchers v" ?p] by simp
      have "fileWatchers ?v1 = fileWatchers v"
        using False Some
        by (simp add: addProtectedFolder_def Let_def saveProtectedFolders_def watchFolder_def)
      then show ?thesis using count_distinct [OF d2 isin] by simp
    qed
  qed
  have rm: "path_resolve env Q \<notin> set (protectedFolders v) \<longrightarrow> removeProtectedFolder env Q v = v"
    by (simp add: removeProtectedFolder_def Let_def)
  show ?thesis using idem c1 c2 rm by simp
qed

theorem addProtectedFolder_twice_one_entry_witness:
  "distinct (protectedFolders demo_vault) \<and> distinct (map fst (fileWatchers demo_vault))
   \<and> set (protectedFolders demo_vault) \<subseteq> set (map fst (fileWatchers demo_vault))
   \<and> \<not> watch_throws demo_env (path_resolve demo_env ''proj'')
   \<and> path_resolve demo_env ''/other'' \<notin> set (protectedFolders demo_vault)
   \<and> protectedFolders (addProtectedFolder demo_env ''proj'' demo_vault) = [''/home'', ''/cwd/proj'']
   \<and> fileWatchers (addProtectedFolder demo_env ''proj'' demo_vault)
       = [(''/home'', Watcher ''/home''), (''/cwd/proj'', Watcher ''/cwd/proj'')]
   \<and> addProtectedFolder demo_env ''proj'' (addProtectedFolder demo_env ''proj'' demo_vault)
       = addProtectedFolder demo_env ''proj'' demo_vault
   \<and> count_list (protectedFolders (addProtectedFolder demo_env ''proj'' (addProtectedFolder demo_env ''proj'' demo_vault))) (path_resolve demo_env ''proj'') = 1
   \<and> count_list (map fst (fileWatchers (addProtectedFolder demo_env ''proj'' (addProtectedFolder demo_env ''proj'' demo_vault)))) (path_resolve demo_env ''proj'') = 1
   \<and> removeProtectedFolder demo_env ''/other'' demo_vault = demo_vault"
proof -
  have h1: "distinct (protectedFolders demo_vault)" by (simp add: demo_vault_def)
  have h2: "distinct (map fst (fileWatchers demo_vault))" by (simp add: demo_vault_def)
  have h3: "set (protectedFolders demo_vault) \<subseteq> set (map fst (fileWatchers demo_vault))"
    by (simp add: demo_vault_def)
  have h4: "\<not> watch_throws demo_env (path_resolve demo_env ''proj'')" by (simp add: demo_env_def)
  have h5: "path_resolve demo_env ''/other'' \<notin> set (protectedFolders demo_vault)"
    by (simp add: demo_env_def demo_vault_def)
  have e1: "protectedFolders (addProtectedFolder demo_env ''proj'' demo_vault) = [''/home'', ''/cwd/proj'']"
    by code_simp
  have e2: "fileWatchers (addProtectedFolder demo_env ''proj'' demo_vault)
       = [(''/home'', Watcher ''/home''), (''/cwd/proj'', Watcher ''/cwd/proj'')]"
    by code_simp
  note t = addProtectedFolder_twice_one_entry [OF h1 h2 h3 h4, of "''/other''"]
  show ?thesis using t h1 h2 h3 h4 h5 e1 e2 by blast
qed


section \<open>Properties of panic mode\<close>

lemmas panic_defs = executeEmergencyProcedures_def wipeSensitiveData_def wipeTempFiles_def
  wipeCache_def wipeNonSecurityLogs_def clearMemory_def performLockdown_def activateLockdown_def
  encryptAllSensitiveFiles_def disableNetworkAccess_def createVanishingLocks_def
  activateDecoyFiles_def fakeApplicationCrash_def selfObliterate_def wipeAllData_def
  deleteApplicationFiles_def removeRegistryEntries_def plog_def Let_def

lemma exec_trace:
  "ptrace (executeEmergencyProcedures win32 trigger s)
     = ptrace s @ wipe_effects
       @ (if isLockedDown s then [] else lockdown_effects (lockdownDuration s))
       @ crash_effects
       @ (if trigger = ''SELF_DESTRUCT_SEQUENCE'' then obliterate_effects win32 else [])"
  by (simp add: panic_defs wipe_effects_def lockdown_effects_def crash_effects_def
      obliterate_effects_def)

lemma exec_exited:
  "exited (executeEmergencyProcedures win32 trigger s)
     \<longleftrightarrow> exited s \<or> trigger = ''SELF_DESTRUCT_SEQUENCE''"
  by (simp add: panic_defs)

lemma exec_locked: "isLockedDown (executeEmergencyProcedures win32 trigger s)"
  by (simp add: panic_defs)

lemma deactivate_exited: "exited (deactivateLockdown s) = exited s"
  by (simp add: deactivateLockdown_def removeVanishingLocks_def enableNetworkAccess_def plog_def Let_def)

lemma activate_exited: "exited (activateLockdown s) = exited s"
  by (simp add: panic_defs)

lemma fire_exited: "exited (fireTimer s) = exited s"
  by (simp add: fireTimer_def deactivate_exited split: list.splits)

lemma shutdown_exited: "exited (shutdown s) = exited s"
  by (simp add: shutdown_def deactivate_exited plog_def)

lemma panic_exited:
  "exited (activatePanicMode win32 t s) \<longleftrightarrow> exited s \<or> (\<not> panicMode s \<and> t = ''SELF_DESTRUCT_SEQUENCE'')"
  by (simp add: activatePanicMode_def exec_exited plog_def)

lemma step_exited:
  "exited (step win32 c s) \<longleftrightarrow>
     exited s \<or> (\<not> panicMode s \<and> trigger_of c = Some ''SELF_DESTRUCT_SEQUENCE'')"
  by (cases c)
     (auto simp: checkForPanicWords_def panic_exited deactivate_exited activate_exited fire_exited
        shutdown_exited performLockdown_def performUnlockdown_def split: option.splits)

lemma run_exited:
  "exited (run win32 cs s) \<Longrightarrow> \<not> exited s \<Longrightarrow>
     \<exists>c \<in> set cs. trigger_of c = Some ''SELF_DESTRUCT_SEQUENCE''"
proof (induction cs arbitrary: s)
  case Nil
  then show ?case by simp
next
  case (Cons c cs)
  show ?case
  proof (cases "exited (step win32 c s)")
    case True
    with Cons.prems(2) have "trigger_of c = Some ''SELF_DESTRUCT_SEQUENCE''"
      using step_exited [of win32 c s] by simp
    then show ?thesis by simp
  next
    case False
    from Cons.prems(1) have "exited (run win32 cs (step win32 c s))" by simp
    from Cons.IH [OF this False] show ?thesis by auto
  qed
qed

text \<open>
  C4. In a running handler that is not yet in panic mode, triggering panic mode with a
  trigger other than the destruct passphrase logs the activation and then runs the wipe,
  the lockdown (nothing when lockdown is already active) and the fake crash, in that
  order, leaves lockdown active and does not exit the process. The process exits if and
  only if the trigger is the destruct passphrase, in which case self-obliteration follows
  the fake crash. Whatever sequence of inputs, method calls and timer firings reaches
  the handler, the process has exited only if one of them handed the destruct passphrase
  to \<^verbatim>\<open>activatePanicMode\<close>.
\<close>

theorem panic_ladder:
  assumes "\<not> exited s" and "\<not> panicMode s"
  shows "(trigger \<noteq> ''SELF_DESTRUCT_SEQUENCE'' \<longrightarrow>
            ptrace (activatePanicMode win32 trigger s)
              = ptrace s @ [Logged ''PANIC_MODE_ACTIVATED''] @ wipe_effects
                @ (if isLockedDown s then [] else lockdown_effects (lockdownDuration s))
                @ crash_effects
          \<and> isLockedDown (activatePanicMode win32 trigger s)
          \<and> \<not> exited (activatePanicMode win32 trigger s))
       \<and> (exited (activatePanicMode win32 trigger s) \<longleftrightarrow> trigger = ''SELF_DESTRUCT_SEQUENCE'')
       \<and> ptrace (activatePanicMode win32 ''SELF_DESTRUCT_SEQUENCE'' s)
              = ptrace s @ [Logged ''PANIC_MODE_ACTIVATED''] @ wipe_effects
                @ (if isLockedDown s then [] else lockdown_effects (lockdownDuration s))
                @ crash_effects @ obliterate_effects win32
       \<and> (exited (run win32 cs s) \<longrightarrow> (\<exists>c \<in> set cs. trigger_of c = Some ''SELF_DESTRUCT_SEQUENCE''))"
  using assms run_exited [of win32 cs s]
  by (simp add: activatePanicMode_def exec_trace exec_exited exec_locked plog_def)


theorem panic_ladder_witness:
  "\<not> exited new_handler \<and> \<not> panicMode new_handler
   \<and> ''BLACK_ICE_PROTOCOL'' \<noteq> ''SELF_DESTRUCT_SEQUENCE''
   \<and> ptrace (activatePanicMode False ''BLACK_ICE_PROTOCOL'' new_handler)
       = ptrace new_handler @ [Logged ''PANIC_MODE_ACTIVATED''] @ wipe_effects
         @ (if isLockedDown new_handler then [] else lockdown_effects (lockdownDuration new_handler))
         @ crash_effects
   \<and> \<not> exited (activatePanicMode False ''BLACK_ICE_PROTOCOL'' new_handler)
   \<and> exited (activatePanicMode False ''SELF_DESTRUCT_SEQUENCE'' new_handler)
   \<and> exited (run False [ActivateLockdown, Input ''PLEASE SELF_DESTRUCT_SEQUENCE NOW''] new_handler)
   \<and> (\<exists>c \<in> set [ActivateLockdown, Input ''PLEASE SELF_DESTRUCT_SEQUENCE NOW''].
         trigger_of c = Some ''SELF_DESTRUCT_SEQUENCE'')"
proof -
  have h1: "\<not> exited new_handler" by (simp add: new_handler_def)
  have h2: "\<not> panicMode new_handler" by (simp add: new_handler_def)
  have h3: "''BLACK_ICE_PROTOCOL'' \<noteq> ''SELF_DESTRUCT_SEQUENCE''" by simp
  have fp: "first_passphrase emergencyPassphrases ''PLEASE SELF_DESTRUCT_SEQUENCE NOW''
      = Some ''SELF_DESTRUCT_SEQUENCE''"
    by (simp add: emergencyPassphrases_def)
  have h4: "exited (run False [ActivateLockdown, Input ''PLEASE SELF_DESTRUCT_SEQUENCE NOW''] new_handler)"
    by (simp add: fp checkForPanicWords_def panic_exited new_handler_def panic_defs)
  note a = panic_ladder [OF h1 h2, of "''BLACK_ICE_PROTOCOL''" False
      "[ActivateLockdown, Input ''PLEASE SELF_DESTRUCT_SEQUENCE NOW'']"]
  note b = panic_ladder [OF h1 h2, of "''SELF_DESTRUCT_SEQUENCE''" False "[]"]
  show ?thesis using a b h1 h2 h3 h4 by blast
qed

section \<open>Properties of lockdown and its timer\<close>

lemmas lockdown_defs = activateLockdown_def deactivateLockdown_def encryptAllSensitiveFiles_def
  disableNetworkAccess_def createVanishingLocks_def activateDecoyFiles_def
  removeVanishingLocks_def enableNetworkAccess_def plog_def Let_def

text \<open>
  C7, as stated, fails in its second half. After \<^verbatim>\<open>activateLockdown\<close> and a manual
  \<^verbatim>\<open>deactivateLockdown\<close> the timer is still pending. If lockdown is activated again
  before it fires, the stale timer ends the new lockdown and writes a second
  deactivation entry, while the new lockdown's own timer is still pending.
\<close>

theorem deactivateLockdown_leaves_timer_pending:
  "timers (deactivateLockdown (activateLockdown new_handler)) = [300000]
   \<and> \<not> isLockedDown (fireTimer (activateLockdown (deactivateLockdown (activateLockdown new_handler))))
   \<and> count_logged ''LOCKDOWN_DEACTIVATED''
        (ptrace (fireTimer (activateLockdown (deactivateLockdown (activateLockdown new_handler))))) = 2
   \<and> timers (fireTimer (activateLockdown (deactivateLockdown (activateLockdown new_handler)))) = [300000]"
  by (simp add: new_handler_def lockdown_defs fireTimer_def count_logged_def)

text \<open>
  C7, amended. From a state without lockdown, calling \<^verbatim>\<open>activateLockdown\<close> twice in a
  row performs the lockdown effects once and schedules one timer. A manual
  \<^verbatim>\<open>deactivateLockdown\<close> before the timer fires does not cancel it: the timer stays
  pending. When it then fires with lockdown still inactive, the call returns at once:
  nothing is added to the trace, so there is one deactivation entry, not two.
\<close>

theorem lockdown_once_timer_not_cancelled:
  assumes "\<not> isLockedDown s"
  shows "activateLockdown (activateLockdown s) = activateLockdown s
       \<and> ptrace (activateLockdown (activateLockdown s)) = ptrace s @ lockdown_effects (lockdownDuration s)
       \<and> timers (activateLockdown (activateLockdown s)) = timers s @ [lockdownDuration s]
       \<and> timers (deactivateLockdown (activateLockdown s)) = timers s @ [lockdownDuration s]
       \<and> (timers s = [] \<longrightarrow>
            ptrace (fireTimer (deactivateLockdown (activateLockdown s)))
              = ptrace (deactivateLockdown (activateLockdown s))
            \<and> count_logged ''LOCKDOWN_DEACTIVATED'' (ptrace (fireTimer (deactivateLockdown (activateLockdown s))))
              = count_logged ''LOCKDOWN_DEACTIVATED'' (ptrace s) + 1
            \<and> timers (fireTimer (deactivateLockdown (activateLockdown s))) = [])"
  using assms
  by (simp add: lockdown_defs fireTimer_def lockdown_effects_def count_logged_def)

theorem lockdown_once_timer_not_cancelled_witness:
  "\<not> isLockedDown new_handler \<and> timers new_handler = []
   \<and> activateLockdown (activateLockdown new_handler) = activateLockdown new_handler
   \<and> ptrace (activateLockdown (activateLockdown new_handler))
       = ptrace new_handler @ lockdown_effects (lockdownDuration new_handler)
   \<and> timers (deactivateLockdown (activateLockdown new_handler))
       = timers new_handler @ [lockdownDuration new_handler]
   \<and> count_logged ''LOCKDOWN_DEACTIVATED''
        (ptrace (fireTimer (deactivateLockdown (activateLockdown new_handler))))
       = count_logged ''LOCKDOWN_DEACTIVATED'' (ptrace new_handler) + 1"
proof -
  have h1: "\<not> isLockedDown new_handler" by (simp add: new_handler_def)
  have h2: "timers new_handler = []" by (simp add: new_handler_def)
  note t = lockdown_once_timer_not_cancelled [OF h1]
  show ?thesis using t h1 h2 by blast
qed

section \<open>Properties of log rotation\<close>

text \<open>
  C10, as stated, fails in its first half. With a ceiling of 10 bytes, two appended
  entries bring the current file to 18 bytes; the third append goes to the same file,
  which grows to 27 bytes, and no new file appears in the log directory.
\<close>

theorem writeLogEntry_appends_past_ceiling:
  "maxLogSize demo_logger
     < file_size (writeAll demo_log_env [demo_entry, demo_entry] demo_logger) ''security_log_C.enc''
   \<and> currentLogFile (writeAll demo_log_env [demo_entry, demo_entry] demo_logger)
       = Some ''security_log_C.enc''
   \<and> currentLogFile (writeAll demo_log_env [demo_entry, demo_entry, demo_entry] demo_logger)
       = Some ''security_log_C.enc''
   \<and> file_size (writeAll demo_log_env [demo_entry, demo_entry, demo_entry] demo_logger)
         ''security_log_C.enc'' = 27
   \<and> map fst (logDir (writeAll demo_log_env [demo_entry, demo_entry, demo_entry] demo_logger))
       = map fst (logDir demo_logger)"
  by code_simp

subsection \<open>Appending\<close>

lemma map_set_same_keys: "map_of ps k = Some v \<Longrightarrow> map fst (map_set k v' ps) = map fst ps"
  by (induction ps) (auto split: if_splits)

lemma map_of_map_set: "map_of (map_set k v ps) = (map_of ps)(k \<mapsto> v)"
  by (induction ps) (auto simp: fun_eq_iff)

lemma writeLogEntry_logDir:
  assumes "isInitialized lg" "currentLogFile lg = Some f" "\<not> write_fails env f"
    and "map_of (logDir lg) f = Some content"
  shows "logDir (writeLogEntry env e lg)
           = map_set f (content @ encryptLogEntry env e @ [CHR 0x0A]) (logDir lg)"
  using assms by (simp add: writeLogEntry_def appendFile_def Let_def)

lemma writeLogEntry_keeps_current: "currentLogFile (writeLogEntry env e lg) = currentLogFile lg"
  by (simp add: writeLogEntry_def Let_def split: option.splits)

subsection \<open>The periodic check\<close>

lemma foldl_unlink_other:
  "maxLogFiles (foldl (unlink_file env) lg ds) = maxLogFiles lg
   \<and> currentLogFile (foldl (unlink_file env) lg ds) = currentLogFile lg"
  by (induction ds arbitrary: lg) (simp_all add: unlink_file_def)

lemma cleanup_keeps_current: "currentLogFile (cleanupOldLogFiles env lg) = currentLogFile lg"
  by (simp add: cleanupOldLogFiles_def Let_def foldl_unlink_other)

lemma checkLogRotation_rotates:
  assumes "currentLogFile lg = Some f" "map_of (logDir lg) f = Some content"
    and "maxLogSize lg < length content" "\<not> write_fails env (newLogFileName isoString)"
  shows "checkLogRotation env isoString lg
           = cleanupOldLogFiles env
               (lg\<lparr>currentLogFile := Some (newLogFileName isoString),
                   logDir := map_set (newLogFileName isoString)
                               (encryptLogEntry env log_file_created) (logDir lg)\<rparr>)"
  using assms
  by (simp add: checkLogRotation_def rotateLogFile_def createNewLogFile_def Let_def)

lemma checkLogRotation_idle:
  assumes "currentLogFile lg = Some f" "map_of (logDir lg) f = Some content"
    and "length content \<le> maxLogSize lg"
  shows "checkLogRotation env isoString lg = lg"
  using assms by (simp add: checkLogRotation_def)

subsection \<open>Cleanup\<close>

lemma insert_sorted_filter_length:
  "length (filter P (insert_sorted cmp x ys)) = length (filter P (x # ys))"
  by (induction ys) (auto split: option.splits)

lemma array_sort_filter_length:
  "length (filter P (array_sort cmp xs)) = length (filter P xs)"
  unfolding array_sort_def
  by (induction xs) (simp_all add: insert_sorted_filter_length)

lemma array_sort_length: "length (array_sort cmp xs) = length xs"
  using array_sort_filter_length [of "\<lambda>x. True" cmp xs] by simp

lemma set_insert_sorted: "set (insert_sorted cmp x ys) = insert x (set ys)"
  by (induction ys) (auto split: option.splits)

lemma set_array_sort: "set (array_sort cmp xs) = set xs"
  unfolding array_sort_def
  by (induction xs) (simp_all add: set_insert_sorted)

lemma foldl_unlink_logDir:
  assumes "\<forall>f. \<not> unlink_fails env f"
  shows "logDir (foldl (unlink_file env) lg ds)
           = filter (\<lambda>p. fst p \<notin> lf_name ` set ds) (logDir lg)"
  using assms
proof (induction ds arbitrary: lg)
  case Nil
  then show ?case by simp
next
  case (Cons d ds)
  have "logDir (unlink_file env lg d) = filter (\<lambda>p. fst p \<noteq> lf_name d) (logDir lg)"
    using Cons.prems by (simp add: unlink_file_def map_delete_def)
  then show ?case using Cons by (simp add: conj_commute)
qed

lemma cleanup_nothing_to_delete:
  assumes "length (filter is_log_file_name (readdir env (map fst (logDir lg)))) \<le> maxLogFiles lg"
  shows "cleanupOldLogFiles env lg = lg"
  using assms by (simp add: cleanupOldLogFiles_def Let_def array_sort_length)

lemma cleanup_bound:
  assumes ok: "\<forall>f. \<not> unlink_fails env f"
    and dist: "distinct (map fst (logDir lg))"
    and listed: "set (map fst (logDir lg)) \<subseteq> set (readdir env (map fst (logDir lg)))"
  shows "length (log_files_on_disk (cleanupOldLogFiles env lg)) \<le> maxLogFiles lg"
proof -
  let ?names = "map fst (logDir lg)"
  let ?mk = "\<lambda>file. \<lparr>lf_name = file, lf_timestamp = extractTimestampFromFileName env file\<rparr>"
  let ?n = "maxLogFiles lg"
  define L where "L = array_sort compare_desc (map ?mk (filter is_log_file_name (readdir env ?names)))"
  define D where "D = (if ?n < length L then drop ?n L else [])"
  define R where "R = filter (\<lambda>f. is_log_file_name f \<and> f \<notin> lf_name ` set D) ?names"
  have eq: "cleanupOldLogFiles env lg = foldl (unlink_file env) lg D"
    by (simp add: cleanupOldLogFiles_def Let_def L_def D_def)
  have R: "log_files_on_disk (cleanupOldLogFiles env lg) = R"
    unfolding log_files_on_disk_def eq foldl_unlink_logDir [OF ok] R_def
    by (simp add: filter_map comp_def conj_commute)
  have dR: "distinct R" unfolding R_def using dist by (rule distinct_filter)
  have sub: "set R \<subseteq> lf_name ` set (take ?n L)"
  proof
    fix x assume x: "x \<in> set R"
    then have xn: "x \<in> set ?names" and lg: "is_log_file_name x"
      and nd: "x \<notin> lf_name ` set D"
      by (simp_all add: R_def)
    from xn listed have "x \<in> set (readdir env ?names)" by blast
    with lg have inL: "?mk x \<in> set L" by (simp add: L_def set_array_sort)
    have "?mk x \<in> set (take ?n L)"
    proof (cases "?n < length L")
      case True
      have "set L = set (take ?n L) \<union> set (drop ?n L)"
        by (metis append_take_drop_id set_append)
      moreover have "?mk x \<notin> set (drop ?n L)"
      proof
        assume "?mk x \<in> set (drop ?n L)"
        then have "?mk x \<in> set D" using True by (simp add: D_def)
        then have "lf_name (?mk x) \<in> lf_name ` set D" by (rule imageI)
        then show False using nd by simp
      qed
      ultimately show ?thesis using inL by blast
    next
      case False
      then show ?thesis using inL by simp
    qed
    then have "lf_name (?mk x) \<in> lf_name ` set (take ?n L)" by (rule imageI)
    then show "x \<in> lf_name ` set (take ?n L)" by simp
  qed
  have "length R = card (set R)" by (rule distinct_card [OF dR, symmetric])
  also have "\<dots> \<le> card (lf_name ` set (take ?n L))"
    by (rule card_mono [OF _ sub]) simp
  also have "\<dots> \<le> card (set (take ?n L))" by (rule card_image_le) simp
  also have "\<dots> \<le> length (take ?n L)" by (rule card_length)
  also have "\<dots> \<le> ?n" by simp
  finally show ?thesis using R by simp
qed

text \<open>
  C10, amended. Appending an entry never rotates: \<^verbatim>\<open>writeLogEntry\<close> keeps the current
  log file, whatever its size, and appends the encrypted entry and a newline to it,
  leaving every other file as it was. The log rotates at the next periodic rotation check
  that finds the current file larger than the ceiling: the check writes a new file
  holding the first entry, makes it the current file and then runs the cleanup; a check
  that finds the current file no larger than the ceiling changes nothing. The cleanup
  deletes nothing while the directory lists no more than \<^verbatim>\<open>maxLogFiles\<close> log files, and
  once it has run with every deletion succeeding, at most \<^verbatim>\<open>maxLogFiles\<close> log files
  remain in the log directory. The constructor sets the ceiling to 10 MB and
  \<^verbatim>\<open>maxLogFiles\<close> to 10.
\<close>

theorem rotation_on_periodic_check_only:
  "currentLogFile (writeLogEntry env e lg) = currentLogFile lg
   \<and> (isInitialized lg \<and> currentLogFile lg = Some f \<and> \<not> write_fails env f
        \<and> map_of (logDir lg) f = Some content \<longrightarrow>
        logDir (writeLogEntry env e lg)
          = map_set f (content @ encryptLogEntry env e @ [CHR 0x0A]) (logDir lg)
        \<and> map_of (logDir (writeLogEntry env e lg)) f
          = Some (content @ encryptLogEntry env e @ [CHR 0x0A])
        \<and> (g \<noteq> f \<longrightarrow> map_of (logDir (writeLogEntry env e lg)) g = map_of (logDir lg) g)
        \<and> map fst (logDir (writeLogEntry env e lg)) = map fst (logDir lg))
   \<and> (currentLogFile lg = Some f \<and> map_of (logDir lg) f = Some content \<longrightarrow>
        (maxLogSize lg < length content \<and> \<not> write_fails env (newLogFileName isoString) \<longrightarrow>
           checkLogRotation env isoString lg
             = cleanupOldLogFiles env
                 (lg\<lparr>currentLogFile := Some (newLogFileName isoString),
                     logDir := map_set (newLogFileName isoString)
                                 (encryptLogEntry env log_file_created) (logDir lg)\<rparr>)
           \<and> currentLogFile (checkLogRotation env isoString lg) = Some (newLogFileName isoString))
        \<and> (length content \<le> maxLogSize lg \<longrightarrow> checkLogRotation env isoString lg = lg))
   \<and> (length (filter is_log_file_name (readdir env (map fst (logDir lg)))) \<le> maxLogFiles lg \<longrightarrow>
        cleanupOldLogFiles env lg = lg)
   \<and> ((\<forall>file. \<not> unlink_fails env file) \<and> distinct (map fst (logDir lg))
        \<and> set (map fst (logDir lg)) \<subseteq> set (readdir env (map fst (logDir lg))) \<longrightarrow>
        length (log_files_on_disk (cleanupOldLogFiles env lg)) \<le> maxLogFiles lg)
   \<and> maxLogSize new_logger = 10485760 \<and> maxLogFiles new_logger = 10"
proof -
  have a: "currentLogFile (writeLogEntry env e lg) = currentLogFile lg"
    by (rule writeLogEntry_keeps_current)
  have b: "logDir (writeLogEntry env e lg)
          = map_set f (content @ encryptLogEntry env e @ [CHR 0x0A]) (logDir lg)
        \<and> map_of (logDir (writeLogEntry env e lg)) f
          = Some (content @ encryptLogEntry env e @ [CHR 0x0A])
        \<and> (g \<noteq> f \<longrightarrow> map_of (logDir (writeLogEntry env e lg)) g = map_of (logDir lg) g)
        \<and> map fst (logDir (writeLogEntry env e lg)) = map fst (logDir lg)"
    if h: "isInitialized lg \<and> currentLogFile lg = Some f \<and> \<not> write_fails env f
        \<and> map_of (logDir lg) f = Some content"
  proof -
    have eq: "logDir (writeLogEntry env e lg)
          = map_set f (content @ encryptLogEntry env e @ [CHR 0x0A]) (logDir lg)"
      using h writeLogEntry_logDir by blast
    show ?thesis
      unfolding eq using h by (simp add: map_of_map_set map_set_same_keys)
  qed
  have c: "checkLogRotation env isoString lg
             = cleanupOldLogFiles env
                 (lg\<lparr>currentLogFile := Some (newLogFileName isoString),
                     logDir := map_set (newLogFileName isoString)
                                 (encryptLogEntry env log_file_created) (logDir lg)\<rparr>)
           \<and> currentLogFile (checkLogRotation env isoString lg) = Some (newLogFileName isoString)"
    if "currentLogFile lg = Some f \<and> map_of (logDir lg) f = Some content"
      and "maxLogSize lg < length content \<and> \<not> write_fails env (newLogFileName isoString)"
    using that checkLogRotation_rotates [of lg f content env isoString]
    by (simp add: cleanup_keeps_current)
  have d: "checkLogRotation env isoString lg = lg"
    if "currentLogFile lg = Some f \<and> map_of (logDir lg) f = Some content"
      and "length content \<le> maxLogSize lg"
    using that checkLogRotation_idle by blast
  have n: "length (filter is_log_file_name (readdir env (map fst (logDir lg)))) \<le> maxLogFiles lg \<longrightarrow>
        cleanupOldLogFiles env lg = lg"
    using cleanup_nothing_to_delete by blast
  have k: "(\<forall>file. \<not> unlink_fails env file) \<and> distinct (map fst (logDir lg))
        \<and> set (map fst (logDir lg)) \<subseteq> set (readdir env (map fst (logDir lg))) \<longrightarrow>
        length (log_files_on_disk (cleanupOldLogFiles env lg)) \<le> maxLogFiles lg"
    using cleanup_bound by blast
  have g: "maxLogSize new_logger = 10485760 \<and> maxLogFiles new_logger = 10"
    by (simp add: new_logger_def)
  show ?thesis using a b c d n k g by blast
qed

theorem rotation_on_periodic_check_only_witness:
  "isInitialized demo_logger_full \<and> currentLogFile demo_logger_full = Some ''security_log_C.enc''
   \<and> \<not> write_fails demo_log_env ''security_log_C.enc''
   \<and> map_of (logDir demo_logger_full) ''security_log_C.enc'' = Some (demo_line @ demo_line @ demo_line)
   \<and> ''security_log_A.enc'' \<noteq> ''security_log_C.enc''
   \<and> maxLogSize demo_logger_full < length (demo_line @ demo_line @ demo_line)
   \<and> \<not> write_fails demo_log_env (newLogFileName demo_iso)
   \<and> (\<forall>file. \<not> unlink_fails demo_log_env file)
   \<and> distinct (map fst (logDir demo_logger_full))
   \<and> set (map fst (logDir demo_logger_full))
       \<subseteq> set (readdir demo_log_env (map fst (logDir demo_logger_full)))
   \<and> map_of (logDir (writeLogEntry demo_log_env demo_entry demo_logger_full)) ''security_log_C.enc''
       = Some ((demo_line @ demo_line @ demo_line) @ encryptLogEntry demo_log_env demo_entry @ [CHR 0x0A])
   \<and> map_of (logDir (writeLogEntry demo_log_env demo_entry demo_logger_full)) ''security_log_A.enc''
       = map_of (logDir demo_logger_full) ''security_log_A.enc''
   \<and> currentLogFile (checkLogRotation demo_log_env demo_iso demo_logger_full)
       = Some (newLogFileName demo_iso)
   \<and> length (log_files_on_disk (cleanupOldLogFiles demo_log_env demo_logger_full))
       \<le> maxLogFiles demo_logger_full
   \<and> log_files_on_disk (checkLogRotation demo_log_env demo_iso demo_logger_full)
       = [''security_log_A.enc'', ''security_log_2024-01-15T10-30-00-000Z.enc'']
   \<and> currentLogFile demo_logger = Some ''security_log_C.enc''
   \<and> map_of (logDir demo_logger) ''security_log_C.enc'' = Some []
   \<and> length ([] :: string) \<le> maxLogSize demo_logger
   \<and> checkLogRotation demo_log_env demo_iso demo_logger = demo_logger
   \<and> length (filter is_log_file_name (readdir demo_log_env (map fst (logDir demo_logger_roomy))))
       \<le> maxLogFiles demo_logger_roomy
   \<and> cleanupOldLogFiles demo_log_env demo_logger_roomy = demo_logger_roomy"
proof -
  have h1: "isInitialized demo_logger_full" by (simp add: demo_logger_full_def demo_logger_def)
  have h2: "currentLogFile demo_logger_full = Some ''security_log_C.enc''"
    by (simp add: demo_logger_full_def demo_logger_def)
  have h3: "\<not> write_fails demo_log_env ''security_log_C.enc''" by (simp add: demo_log_env_def)
  have h4: "map_of (logDir demo_logger_full) ''security_log_C.enc'' = Some (demo_line @ demo_line @ demo_line)"
    by (simp add: demo_logger_full_def demo_logger_def)
  have h5: "''security_log_A.enc'' \<noteq> ''security_log_C.enc''" by simp
  have h6: "maxLogSize demo_logger_full < length (demo_line @ demo_line @ demo_line)"
    by (simp add: demo_logger_full_def demo_logger_def demo_line_def)
  have h7: "\<not> write_fails demo_log_env (newLogFileName demo_iso)" by (simp add: demo_log_env_def)
  have h8: "\<forall>file. \<not> unlink_fails demo_log_env file" by (simp add: demo_log_env_def)
  have h9: "distinct (map fst (logDir demo_logger_full))"
    by (simp add: demo_logger_full_def demo_logger_def)
  have h10: "set (map fst (logDir demo_logger_full))
       \<subseteq> set (readdir demo_log_env (map fst (logDir demo_logger_full)))"
    by code_simp
  have h11: "currentLogFile demo_logger = Some ''security_log_C.enc''" by (simp add: demo_logger_def)
  have h12: "map_of (logDir demo_logger) ''security_log_C.enc'' = Some []" by (simp add: demo_logger_def)
  have h13: "length ([] :: string) \<le> maxLogSize demo_logger" by simp
  have h14: "length (filter is_log_file_name (readdir demo_log_env (map fst (logDir demo_logger_roomy))))
       \<le> maxLogFiles demo_logger_roomy"
    by code_simp
  have ev: "log_files_on_disk (checkLogRotation demo_log_env demo_iso demo_logger_full)
       = [''security_log_A.enc'', ''security_log_2024-01-15T10-30-00-000Z.enc'']"
    by code_simp
  note t1 = rotation_on_periodic_check_only [where lg = demo_logger_full and env = demo_log_env
      and f = "''security_log_C.enc''" and content = "demo_line @ demo_line @ demo_line"
      and g = "''security_log_A.enc''" and isoString = demo_iso and e = demo_entry]
  note t2 = rotation_on_periodic_check_only [where lg = demo_logger and env = demo_log_env
      and f = "''security_log_C.enc''" and content = "[]"
      and g = "''security_log_A.enc''" and isoString = demo_iso and e = demo_entry]
  note t3 = rotation_on_periodic_check_only [where lg = demo_logger_roomy and env = demo_log_env
      and f = "''security_log_C.enc''" and content = "[]"
      and g = "''security_log_A.enc''" and isoString = demo_iso and e = demo_entry]
  show ?thesis
    using t1 t2 t3 h1 h2 h3 h4 h5 h6 h7 h8 h9 h10 h11 h12 h13 h14 ev by blast
qed

end
